theory Spec2Isabelle
  imports Main "HOL-Library.Sublist"
begin

section \<open>Python values\<close>

text \<open>
  A Python \<open>str\<close> is a sequence of Unicode code points; \<open>len\<close>, indexing and the
  substring test \<open>in\<close> all count code points. A string is therefore a list of code
  points, and an ASCII literal of the source is written \<open>ascii ''...''\<close>.
\<close>

type_synonym pystr = "nat list"

definition ascii :: "string \<Rightarrow> pystr" where
  "ascii s = map of_char s"

text \<open>The exception classes that the code of \<open>GPT_RP.py\<close> can raise.\<close>

datatype error =
    OSError | YAMLError | ValueError | KeyError | IndexError | TypeError | AttributeError

text \<open>
  What \<open>yaml.safe_load\<close> returns: the core schema (null, booleans, integers, strings,
  sequences, mappings). A mapping is the list of its key/value pairs; a lookup takes
  the first pair with the key.
\<close>

datatype yval =
    YNull
  | YBool bool
  | YInt int
  | YStr pystr
  | YList "yval list"
  | YMap "(yval \<times> yval) list"

text \<open>
  An object met while a template is formatted is a loaded value or some other object
  of the interpreter (a bound method, a type, ...), which stays opaque.
\<close>

datatype 'o pyobj = Val yval | Opaque 'o

datatype accessor = Attr pystr | Item pystr

text \<open>
  The parts of the Python runtime that the code calls and that depend on the Unicode
  database or on the interpreter's objects are parameters of the model:
  \<^item> \<open>str_lower\<close> is \<open>str.lower\<close>;
  \<^item> \<open>to_decimal\<close> is \<open>Py_UNICODE_TODECIMAL\<close>, the value of a decimal digit, on the
    code points beyond ASCII;
  \<^item> \<open>ssize_max\<close> is \<open>PY_SSIZE_T_MAX\<close>;
  \<^item> \<open>access\<close> is attribute access and subscription on objects other than the
    subscription of a \<open>str\<close> by an integer or a string;
  \<^item> \<open>convert\<close> is \<open>repr\<close>, \<open>ascii\<close> and \<open>str\<close> (by conversion character) except
    \<open>str\<close> of a \<open>str\<close>;
  \<^item> \<open>format_with\<close> is \<open>format(obj, spec)\<close> except for a \<open>str\<close> with the empty
    specification.
\<close>

record 'o runtime =
  str_lower :: "pystr \<Rightarrow> pystr"
  to_decimal :: "nat \<Rightarrow> nat option"
  ssize_max :: nat
  access :: "'o pyobj \<Rightarrow> accessor \<Rightarrow> error + 'o pyobj"
  convert :: "nat \<Rightarrow> 'o pyobj \<Rightarrow> error + pystr"
  format_with :: "'o pyobj \<Rightarrow> pystr \<Rightarrow> error + pystr"

section \<open>The mood classifier\<close>

text \<open>\<open>x in low\<close> on strings: \<open>x\<close> occurs in \<open>low\<close> at some position.\<close>

fun str_contains :: "pystr \<Rightarrow> pystr \<Rightarrow> bool" where
  "str_contains x [] = (x = [])"
| "str_contains x (c # cs) = (prefix x (c # cs) \<or> str_contains x cs)"

text \<open>\<open>any(x in low for x in keys)\<close>.\<close>

fun any_in :: "pystr list \<Rightarrow> pystr \<Rightarrow> bool" where
  "any_in [] low = False"
| "any_in (x # xs) low = (str_contains x low \<or> any_in xs low)"

definition anger_keywords :: "pystr list" where
  "anger_keywords = [ascii ''angry'', ascii ''mad'', [24594], [29983, 27683]]"

definition happiness_keywords :: "pystr list" where
  "happiness_keywords = [ascii ''happy'', ascii ''love'', [38283, 24515], [21916]]"

definition detect_mood :: "'o runtime \<Rightarrow> pystr \<Rightarrow> pystr" where
  "detect_mood rt msg =
     (let low = str_lower rt msg in
      if any_in anger_keywords low then ascii ''angry''
      else if any_in happiness_keywords low then ascii ''happy''
      else ascii ''neutral'')"

text \<open>
  A runtime for ASCII text: \<open>str.lower\<close> changes the letters A to Z only, no code
  point beyond ASCII is a decimal digit, \<open>Py_ssize_t\<close> has 64 bits, and the
  operations left to the runtime raise. The examples below never reach them.
\<close>

definition ascii_lower_char :: "nat \<Rightarrow> nat" where
  "ascii_lower_char c = (if 65 \<le> c \<and> c \<le> 90 then c + 32 else c)"

definition ascii_runtime :: "unit runtime" where
  "ascii_runtime = \<lparr>
     str_lower = map ascii_lower_char,
     to_decimal = (\<lambda>c. None),
     ssize_max = 9223372036854775807,
     access = (\<lambda>obj a. Inl AttributeError),
     convert = (\<lambda>c obj. Inl TypeError),
     format_with = (\<lambda>obj spec. Inl ValueError) \<rparr>"

section \<open>The engine and its loader\<close>

text \<open>
  \<open>key in data\<close> for a string \<open>key\<close>: membership among the keys of a mapping or the
  items of a sequence, substring containment in a string, \<open>TypeError\<close> on a value that
  is not a container.
\<close>

fun contains_key :: "pystr \<Rightarrow> yval \<Rightarrow> error + bool" where
  "contains_key key (YMap m) = Inr (YStr key \<in> set (map fst m))"
| "contains_key key (YList xs) = Inr (YStr key \<in> set xs)"
| "contains_key key (YStr s) = Inr (str_contains key s)"
| "contains_key key v = Inl TypeError"

text \<open>
  \<open>obj[key]\<close> for a string \<open>key\<close>: a mapping is looked up (\<open>KeyError\<close> on a missing
  key), every other value raises \<open>TypeError\<close>.
\<close>

fun getitem :: "yval \<Rightarrow> pystr \<Rightarrow> error + yval" where
  "getitem (YMap m) key = (case map_of m (YStr key) of None \<Rightarrow> Inl KeyError | Some v \<Rightarrow> Inr v)"
| "getitem v key = Inl TypeError"

record SoloEngine =
  char :: yval
  name :: yval
  templates :: yval

text \<open>\<open>SoloEngine.__init__\<close>.\<close>

definition init :: "yval \<Rightarrow> error + SoloEngine" where
  "init char_data =
     (case getitem char_data (ascii ''basic_info'') of
        Inl e \<Rightarrow> Inl e
      | Inr bi \<Rightarrow>
          (case getitem bi (ascii ''name'') of
             Inl e \<Rightarrow> Inl e
           | Inr n \<Rightarrow>
               (case getitem char_data (ascii ''speech_patterns'') of
                  Inl e \<Rightarrow> Inl e
                | Inr t \<Rightarrow> Inr \<lparr>char = char_data, name = n, templates = t\<rparr>)))"

text \<open>
  What \<open>open(path)\<close> followed by \<open>yaml.safe_load\<close> gives for a path: \<open>open\<close> raises
  (\<open>Unreadable\<close>), the parser raises (\<open>Malformed\<close>), or a value is loaded.
\<close>

datatype source = Unreadable | Malformed | Document yval

text \<open>
  The state of the process and of its environment: the file system (by path), the log
  of the paths given to \<open>open\<close>, the system clock, the module constant
  \<open>CHAR_YAML_PATH\<close> and the module variable \<open>_engine\<close>.
\<close>

record state =
  files :: "pystr \<Rightarrow> source"
  opened :: "pystr list"
  clock :: nat
  CHAR_YAML_PATH :: pystr
  engine :: "SoloEngine option"

text \<open>The validation loop of \<open>from_yaml\<close>: the first missing key raises \<open>ValueError\<close>.\<close>

fun check_keys :: "pystr list \<Rightarrow> yval \<Rightarrow> error option" where
  "check_keys [] data = None"
| "check_keys (key # keys) data =
     (case contains_key key data of
        Inl e \<Rightarrow> Some e
      | Inr False \<Rightarrow> Some ValueError
      | Inr True \<Rightarrow> check_keys keys data)"

definition from_yaml :: "state \<Rightarrow> pystr \<Rightarrow> (error + SoloEngine) \<times> state" where
  "from_yaml s path =
     (let s' = s\<lparr>opened := opened s @ [path]\<rparr> in
      case files s path of
        Unreadable \<Rightarrow> (Inl OSError, s')
      | Malformed \<Rightarrow> (Inl YAMLError, s')
      | Document data \<Rightarrow>
          (case check_keys [ascii ''basic_info'', ascii ''speech_patterns''] data of
             Some e \<Rightarrow> (Inl e, s')
           | None \<Rightarrow> (init data, s')))"

text \<open>\<open>_load_engine\<close>: the module variable is assigned only when \<open>from_yaml\<close> returns.\<close>

definition load_engine :: "state \<Rightarrow> (error + SoloEngine) \<times> state" where
  "load_engine s =
     (case engine s of
        Some e \<Rightarrow> (Inr e, s)
      | None \<Rightarrow>
          (case from_yaml s (CHAR_YAML_PATH s) of
             (Inl err, s') \<Rightarrow> (Inl err, s')
           | (Inr e, s') \<Rightarrow> (Inr e, s'\<lparr>engine := Some e\<rparr>)))"

section \<open>Template formatting: \<open>str.format\<close>\<close>

text \<open>
  \<open>template.format(name=..., msg=...)\<close> follows CPython's formatter: the template is
  read from left to right as literal text and replacement fields, and each field is
  rendered as soon as it has been read, so the first error in reading order is the
  one raised. Every error of the reader is a \<open>ValueError\<close>.
\<close>

abbreviation (input) lbrace :: nat where "lbrace \<equiv> 123"
abbreviation (input) rbrace :: nat where "rbrace \<equiv> 125"
abbreviation (input) lbracket :: nat where "lbracket \<equiv> 91"
abbreviation (input) rbracket :: nat where "rbracket \<equiv> 93"
abbreviation (input) dot :: nat where "dot \<equiv> 46"
abbreviation (input) colon :: nat where "colon \<equiv> 58"
abbreviation (input) bang :: nat where "bang \<equiv> 33"

text \<open>
  A replacement field as \<open>parse_field\<close> returns it: field name, conversion character
  (0 for none), format specification, and whether the specification holds a \<open>{\<close>.
\<close>

datatype field = Field pystr nat pystr bool

datatype token = Literal pystr | Repl field | Bad error

text \<open>
  The field name ends at \<open>}\<close>, \<open>:\<close> or \<open>!\<close>; a \<open>{\<close> is an error; after a \<open>[\<close>
  everything up to the next \<open>]\<close> is skipped unread (the flag). The result is the
  name, the terminator and the input after it.
\<close>

fun scan_field_name :: "bool \<Rightarrow> pystr \<Rightarrow> error + (pystr \<times> nat \<times> pystr)" where
  "scan_field_name skip [] = Inl ValueError"
| "scan_field_name True (c # cs) =
     (case scan_field_name (c \<noteq> rbracket) cs of
        Inl e \<Rightarrow> Inl e
      | Inr (n, t, r) \<Rightarrow> Inr (c # n, t, r))"
| "scan_field_name False (c # cs) =
     (if c = lbrace then Inl ValueError
      else if c = rbrace \<or> c = colon \<or> c = bang then Inr ([], c, cs)
      else (case scan_field_name (c = lbracket) cs of
              Inl e \<Rightarrow> Inl e
            | Inr (n, t, r) \<Rightarrow> Inr (c # n, t, r)))"

text \<open>
  The format specification ends at the \<open>}\<close> that closes the field: \<open>count\<close> is the
  number of braces open. The result is the specification, whether it holds a \<open>{\<close>,
  and the input after the closing brace; \<open>None\<close> when the input ends first.
\<close>

fun parse_spec :: "nat \<Rightarrow> pystr \<Rightarrow> (pystr \<times> bool \<times> pystr) option" where
  "parse_spec count [] = None"
| "parse_spec count (c # cs) =
     (if c = rbrace \<and> count = 1 then Some ([], False, cs)
      else (case parse_spec (if c = lbrace then count + 1
                             else if c = rbrace then count - 1 else count) cs of
              None \<Rightarrow> None
            | Some (sp, ex, r) \<Rightarrow> Some (c # sp, ex \<or> c = lbrace, r)))"

definition spec_part :: "pystr \<Rightarrow> nat \<Rightarrow> pystr \<Rightarrow> error + (field \<times> pystr)" where
  "spec_part fname conv s =
     (case parse_spec 1 s of
        None \<Rightarrow> Inl ValueError
      | Some (sp, ex, r) \<Rightarrow> Inr (Field fname conv sp ex, r))"

text \<open>\<open>parse_field\<close>, on the input after the opening brace.\<close>

definition parse_field :: "pystr \<Rightarrow> error + (field \<times> pystr)" where
  "parse_field s =
     (case scan_field_name False s of
        Inl e \<Rightarrow> Inl e
      | Inr (fname, c, r) \<Rightarrow>
          if c = rbrace then Inr (Field fname 0 [] False, r)
          else if c = bang then
            (case r of
               [] \<Rightarrow> Inl ValueError
             | conv # r1 \<Rightarrow>
                 (case r1 of
                    [] \<Rightarrow> spec_part fname conv []
                  | c2 # r2 \<Rightarrow>
                      if c2 = rbrace then Inr (Field fname conv [] False, r2)
                      else if c2 \<noteq> colon then Inl ValueError
                      else spec_part fname conv r2))
          else spec_part fname 0 r)"

definition not_brace :: "nat \<Rightarrow> bool" where
  "not_brace c = (c \<noteq> lbrace \<and> c \<noteq> rbrace)"

lemma scan_field_name_shorter:
  "scan_field_name skip s = Inr (n, t, r) \<Longrightarrow> length r < length s"
  by (induction skip s arbitrary: n rule: scan_field_name.induct)
     (auto split: sum.splits if_splits)

lemma parse_spec_shorter:
  "parse_spec count s = Some (sp, ex, r) \<Longrightarrow> length r < length s"
  by (induction count s arbitrary: sp ex rule: parse_spec.induct)
     (auto split: option.splits if_splits)

lemma spec_part_shorter:
  "spec_part fname conv s = Inr (f, r) \<Longrightarrow> length r < length s"
  by (auto simp: spec_part_def split: option.splits dest: parse_spec_shorter)

lemma parse_field_shorter:
  "parse_field s = Inr (f, r) \<Longrightarrow> length r < length s"
  unfolding parse_field_def
  by (fastforce split: sum.splits if_splits list.splits
        dest: scan_field_name_shorter spec_part_shorter)

text \<open>
  \<open>MarkupIterator_next\<close>, iterated: literal text up to the next brace; a doubled
  brace is one literal brace; a single \<open>}\<close>, or a single \<open>{\<close> at the end, is an
  error; otherwise a replacement field follows.
\<close>

function markup :: "pystr \<Rightarrow> token list" where
  "markup [] = []"
| "markup (x # xs) =
     (let lit = takeWhile not_brace (x # xs) in
      case dropWhile not_brace (x # xs) of
        [] \<Rightarrow> [Literal lit]
      | c # rest \<Rightarrow>
          (case rest of
             [] \<Rightarrow> [Bad ValueError]
           | c2 # rest2 \<Rightarrow>
               if c = c2 then Literal (lit @ [c]) # markup rest2
               else if c = rbrace then [Bad ValueError]
               else (case parse_field rest of
                       Inl e \<Rightarrow> [Bad e]
                     | Inr (f, r) \<Rightarrow> Literal lit # Repl f # markup r)))"
  by pat_completeness auto
termination
proof (relation "measure length", goal_cases)
  case 1
  show ?case by simp
next
  case (2 x xs lit c rest c2 rest2)
  have "length (dropWhile not_brace (x # xs)) \<le> length (x # xs)"
    by (rule length_dropWhile_le)
  with 2 show ?case by simp
next
  case (3 x xs lit c rest c2 rest2 p f r)
  have "length (dropWhile not_brace (x # xs)) \<le> length (x # xs)"
    by (rule length_dropWhile_le)
  moreover from 3 have "length r < length rest"
    by (auto dest: parse_field_shorter)
  ultimately show ?case using 3 by simp
qed

text \<open>
  \<open>get_integer\<close>: \<open>None\<close> for a string that is empty or has a character that is not
  a decimal digit, \<open>ValueError\<close> once the value would exceed \<open>PY_SSIZE_T_MAX\<close>. The
  digits of ASCII are fixed; the others are the runtime's.
\<close>

definition decimal_digit :: "'o runtime \<Rightarrow> nat \<Rightarrow> nat option" where
  "decimal_digit rt c =
     (if c < 128 then (if 48 \<le> c \<and> c \<le> 57 then Some (c - 48) else None)
      else to_decimal rt c)"

fun get_integer_loop :: "'o runtime \<Rightarrow> nat \<Rightarrow> pystr \<Rightarrow> error + nat option" where
  "get_integer_loop rt acc [] = Inr (Some acc)"
| "get_integer_loop rt acc (c # cs) =
     (case decimal_digit rt c of
        None \<Rightarrow> Inr None
      | Some d \<Rightarrow>
          if acc > (ssize_max rt - d) div 10 then Inl ValueError
          else get_integer_loop rt (acc * 10 + d) cs)"

definition get_integer :: "'o runtime \<Rightarrow> pystr \<Rightarrow> error + nat option" where
  "get_integer rt s = (if s = [] then Inr None else get_integer_loop rt 0 s)"

definition not_dot_bracket :: "nat \<Rightarrow> bool" where
  "not_dot_bracket c = (c \<noteq> dot \<and> c \<noteq> lbracket)"

text \<open>
  The first part of a field name selects the argument. \<open>format\<close> is called with the
  keywords \<open>name\<close> and \<open>msg\<close> and no positional argument: an empty or numeric first
  part indexes the empty tuple (\<open>IndexError\<close>), any other name is looked up among the
  keywords (\<open>KeyError\<close>).
\<close>

definition lookup_arg :: "'o runtime \<Rightarrow> yval \<Rightarrow> pystr \<Rightarrow> pystr \<Rightarrow> error + 'o pyobj" where
  "lookup_arg rt nm msg first =
     (case get_integer rt first of
        Inl e \<Rightarrow> Inl e
      | Inr (Some i) \<Rightarrow> Inl IndexError
      | Inr None \<Rightarrow>
          if first = [] then Inl IndexError
          else if first = ascii ''name'' then Inr (Val nm)
          else if first = ascii ''msg'' then Inr (Val (YStr msg))
          else Inl KeyError)"

text \<open>
  \<open>obj[key]\<close> inside a field name. On a \<open>str\<close>, an integer index gives the character
  or \<open>IndexError\<close>, any other key is a \<open>TypeError\<close>.
\<close>

definition getitem_obj ::
  "'o runtime \<Rightarrow> 'o pyobj \<Rightarrow> pystr \<Rightarrow> nat option \<Rightarrow> error + 'o pyobj" where
  "getitem_obj rt obj key idx =
     (case obj of
        Val (YStr x) \<Rightarrow>
          (case idx of
             None \<Rightarrow> Inl TypeError
           | Some i \<Rightarrow> if i < length x then Inr (Val (YStr [x ! i])) else Inl IndexError)
      | _ \<Rightarrow> access rt obj (Item key))"

text \<open>The rest of the field name: \<open>.attr\<close> and \<open>[key]\<close>, applied one after the other.\<close>

function get_rest :: "'o runtime \<Rightarrow> 'o pyobj \<Rightarrow> pystr \<Rightarrow> error + 'o pyobj" where
  "get_rest rt obj [] = Inr obj"
| "get_rest rt obj (c # cs) =
     (if c = dot then
        (let attr = takeWhile not_dot_bracket cs in
         if attr = [] then Inl ValueError
         else (case access rt obj (Attr attr) of
                 Inl e \<Rightarrow> Inl e
               | Inr obj' \<Rightarrow> get_rest rt obj' (dropWhile not_dot_bracket cs)))
      else if c = lbracket then
        (let key = takeWhile (\<lambda>x. x \<noteq> rbracket) cs in
         case dropWhile (\<lambda>x. x \<noteq> rbracket) cs of
           [] \<Rightarrow> Inl ValueError
         | b # rest \<Rightarrow>
             (case get_integer rt key of
                Inl e \<Rightarrow> Inl e
              | Inr idx \<Rightarrow>
                  if key = [] then Inl ValueError
                  else (case getitem_obj rt obj key idx of
                          Inl e \<Rightarrow> Inl e
                        | Inr obj' \<Rightarrow> get_rest rt obj' rest)))
      else Inl ValueError)"
  by pat_completeness auto
termination
proof (relation "measure (\<lambda>(rt, obj, s). length s)", goal_cases)
  case 1
  show ?case by simp
next
  case (2 rt obj c cs attr obj')
  have "length (dropWhile not_dot_bracket cs) \<le> length cs"
    by (rule length_dropWhile_le)
  then show ?case by simp
next
  case (3 rt obj c cs key b rest idx obj')
  have "length (dropWhile (\<lambda>x. x \<noteq> rbracket) cs) \<le> length cs"
    by (rule length_dropWhile_le)
  with 3 show ?case by simp
qed

text \<open>\<open>do_conversion\<close>: \<open>!r\<close>, \<open>!s\<close>, \<open>!a\<close>; \<open>str\<close> of a \<open>str\<close> is the string itself.\<close>

definition do_conversion :: "'o runtime \<Rightarrow> nat \<Rightarrow> 'o pyobj \<Rightarrow> error + 'o pyobj" where
  "do_conversion rt conv obj =
     (if conv = 114 \<or> conv = 115 \<or> conv = 97 then
        (case obj of
           Val (YStr x) \<Rightarrow>
             if conv = 115 then Inr obj
             else map_sum id (\<lambda>r. Val (YStr r)) (convert rt conv obj)
         | _ \<Rightarrow> map_sum id (\<lambda>r. Val (YStr r)) (convert rt conv obj))
      else Inl ValueError)"

text \<open>\<open>render_field\<close>: a \<open>str\<close> with the empty specification is written as it is.\<close>

definition render_field :: "'o runtime \<Rightarrow> 'o pyobj \<Rightarrow> pystr \<Rightarrow> error + pystr" where
  "render_field rt obj spec =
     (case obj of
        Val (YStr x) \<Rightarrow> if spec = [] then Inr x else format_with rt obj spec
      | _ \<Rightarrow> format_with rt obj spec)"

text \<open>
  \<open>output_markup\<close>: the object of the field name, then the conversion, then the
  expansion of a nested specification (\<open>expand\<close>), then the rendering.
\<close>

definition output_markup ::
  "'o runtime \<Rightarrow> (pystr \<Rightarrow> error + pystr) \<Rightarrow> yval \<Rightarrow> pystr \<Rightarrow> field \<Rightarrow> error + pystr" where
  "output_markup rt expand nm msg f =
     (case f of Field fname conv spec ex \<Rightarrow>
        (case lookup_arg rt nm msg (takeWhile not_dot_bracket fname) of
           Inl e \<Rightarrow> Inl e
         | Inr obj0 \<Rightarrow>
             (case get_rest rt obj0 (dropWhile not_dot_bracket fname) of
                Inl e \<Rightarrow> Inl e
              | Inr obj1 \<Rightarrow>
                  (case (if conv = 0 then Inr obj1 else do_conversion rt conv obj1) of
                     Inl e \<Rightarrow> Inl e
                   | Inr obj2 \<Rightarrow>
                       (case (if ex then expand spec else Inr spec) of
                          Inl e \<Rightarrow> Inl e
                        | Inr spec' \<Rightarrow> render_field rt obj2 spec')))))"

text \<open>\<open>do_markup\<close>: the writer \<open>out\<close> receives the literals and the rendered fields.\<close>

fun do_markup :: "(field \<Rightarrow> error + pystr) \<Rightarrow> pystr \<Rightarrow> token list \<Rightarrow> error + pystr" where
  "do_markup render out [] = Inr out"
| "do_markup render out (Literal l # ts) = do_markup render (out @ l) ts"
| "do_markup render out (Repl f # ts) =
     (case render f of
        Inl e \<Rightarrow> Inl e
      | Inr x \<Rightarrow> do_markup render (out @ x) ts)"
| "do_markup render out (Bad e # ts) = Inl e"

text \<open>\<open>build_string\<close> with its recursion depth: \<open>ValueError\<close> at depth 0.\<close>

fun build_string :: "'o runtime \<Rightarrow> yval \<Rightarrow> pystr \<Rightarrow> nat \<Rightarrow> pystr \<Rightarrow> error + pystr" where
  "build_string rt nm msg 0 s = Inl ValueError"
| "build_string rt nm msg (Suc d) s =
     do_markup (output_markup rt (build_string rt nm msg d) nm msg) [] (markup s)"

text \<open>\<open>template.format(name=nm, msg=msg)\<close>: the depth starts at 2.\<close>

definition format :: "'o runtime \<Rightarrow> pystr \<Rightarrow> yval \<Rightarrow> pystr \<Rightarrow> error + pystr" where
  "format rt template nm msg = build_string rt nm msg 2 template"

section \<open>Responding\<close>

text \<open>The truth value of a loaded value, as \<open>or\<close> tests it.\<close>

fun truthy :: "yval \<Rightarrow> bool" where
  "truthy YNull = False"
| "truthy (YBool b) = b"
| "truthy (YInt i) = (i \<noteq> 0)"
| "truthy (YStr s) = (s \<noteq> [])"
| "truthy (YList xs) = (xs \<noteq> [])"
| "truthy (YMap m) = (m \<noteq> [])"

text \<open>
  \<open>d.get(key)\<close>: only a mapping has the method (\<open>AttributeError\<close> otherwise); the
  result is \<open>None\<close> for a missing key.
\<close>

fun dict_get :: "yval \<Rightarrow> pystr \<Rightarrow> error + yval option" where
  "dict_get (YMap m) key = Inr (map_of m (YStr key))"
| "dict_get v key = Inl AttributeError"

text \<open>
  \<open>self.templates.get(mood) or self.templates.get("neutral", "{msg}")\<close>: the second
  operand is evaluated only when the first is false.
\<close>

definition select_template :: "SoloEngine \<Rightarrow> pystr \<Rightarrow> error + yval" where
  "select_template e md =
     (case dict_get (templates e) md of
        Inl err \<Rightarrow> Inl err
      | Inr r \<Rightarrow>
          (let v = (case r of None \<Rightarrow> YNull | Some v \<Rightarrow> v) in
           if truthy v then Inr v
           else (case dict_get (templates e) (ascii ''neutral'') of
                   Inl err \<Rightarrow> Inl err
                 | Inr None \<Rightarrow> Inr (YStr (ascii ''{msg}''))
                 | Inr (Some t) \<Rightarrow> Inr t)))"

record Reply =
  reply :: pystr
  mood :: pystr
  timestamp :: nat

text \<open>
  \<open>SoloEngine.respond\<close>; \<open>now\<close> is the instant that \<open>datetime.now\<close> returns. Only a
  \<open>str\<close> has the method \<open>format\<close>.
\<close>

definition respond :: "'o runtime \<Rightarrow> SoloEngine \<Rightarrow> nat \<Rightarrow> pystr \<Rightarrow> error + Reply" where
  "respond rt e now user_msg =
     (let md = detect_mood rt user_msg in
      case select_template e md of
        Inl err \<Rightarrow> Inl err
      | Inr (YStr template) \<Rightarrow>
          (case format rt template (name e) user_msg of
             Inl err \<Rightarrow> Inl err
           | Inr reply_text \<Rightarrow> Inr \<lparr>reply = reply_text, mood = md, timestamp = now\<rparr>)
      | Inr v \<Rightarrow> Inl AttributeError)"

text \<open>\<open>SoloEngine.reset\<close>: returns \<open>None\<close>; the engine after the call is the result.\<close>

definition reset :: "SoloEngine \<Rightarrow> (error + unit) \<times> SoloEngine" where
  "reset e = (Inr (), e)"

section \<open>The routes\<close>

definition respond_route :: "'o runtime \<Rightarrow> state \<Rightarrow> pystr \<Rightarrow> (error + Reply) \<times> state" where
  "respond_route rt s message =
     (case load_engine s of
        (Inl err, s') \<Rightarrow> (Inl err, s')
      | (Inr eng, s') \<Rightarrow> (respond rt eng (clock s') message, s'))"

definition reset_route :: "state \<Rightarrow> (error + unit) \<times> state" where
  "reset_route s =
     (case load_engine s of
        (Inl err, s') \<Rightarrow> (Inl err, s')
      | (Inr eng, s') \<Rightarrow>
          (case reset eng of (r, eng') \<Rightarrow> (r, s'\<lparr>engine := Some eng'\<rparr>)))"

text \<open>
  What can happen during the life of the process: a request to one of the routes, the
  clock advancing, a file being written.
\<close>

datatype event = Respond pystr | Reset | Health | Tick nat | Write pystr source

fun step :: "'o runtime \<Rightarrow> state \<Rightarrow> event \<Rightarrow> state" where
  "step rt s (Respond message) = snd (respond_route rt s message)"
| "step rt s Reset = snd (reset_route s)"
| "step rt s Health = s"
| "step rt s (Tick n) = s\<lparr>clock := clock s + n\<rparr>"
| "step rt s (Write path src) = s\<lparr>files := (files s)(path := src)\<rparr>"

definition run :: "'o runtime \<Rightarrow> state \<Rightarrow> event list \<Rightarrow> state" where
  "run rt s evs = foldl (step rt) s evs"

text \<open>
  The required keys as the configuration format states them: a mapping with a
  \<open>speech_patterns\<close> key and a \<open>basic_info\<close> key whose value is a mapping with a
  \<open>name\<close> key.
\<close>

fun has_field :: "pystr \<Rightarrow> yval \<Rightarrow> bool" where
  "has_field key (YMap m) = (YStr key \<in> set (map fst m))"
| "has_field key v = False"

fun lookup_field :: "pystr \<Rightarrow> yval \<Rightarrow> yval option" where
  "lookup_field key (YMap m) = map_of m (YStr key)"
| "lookup_field key v = None"

definition required_keys_present :: "yval \<Rightarrow> bool" where
  "required_keys_present data =
     (has_field (ascii ''speech_patterns'') data \<and>
      (case lookup_field (ascii ''basic_info'') data of
         None \<Rightarrow> False
       | Some bi \<Rightarrow> has_field (ascii ''name'') bi))"

section \<open>An example profile\<close>

text \<open>
  The profile of the scenarios: the character Damian with a neutral and an angry
  template, at the default path; a second file lacks \<open>speech_patterns\<close>.
\<close>

definition demo_profile :: yval where
  "demo_profile = YMap
     [(YStr (ascii ''basic_info''), YMap [(YStr (ascii ''name''), YStr (ascii ''Damian''))]),
      (YStr (ascii ''speech_patterns''), YMap
         [(YStr (ascii ''neutral''), YStr (ascii ''{name} says: {msg}'')),
          (YStr (ascii ''angry''), YStr (ascii ''{name} snaps: {msg}''))])]"

definition demo_engine :: SoloEngine where
  "demo_engine = \<lparr>
     char = demo_profile,
     name = YStr (ascii ''Damian''),
     templates = YMap
       [(YStr (ascii ''neutral''), YStr (ascii ''{name} says: {msg}'')),
        (YStr (ascii ''angry''), YStr (ascii ''{name} snaps: {msg}''))] \<rparr>"

definition no_patterns :: yval where
  "no_patterns = YMap
     [(YStr (ascii ''basic_info''), YMap [(YStr (ascii ''name''), YStr (ascii ''Damian''))])]"

definition demo_files :: "pystr \<Rightarrow> source" where
  "demo_files path =
     (if path = ascii ''damian_knight_dusk.yaml'' then Document demo_profile
      else if path = ascii ''no_patterns.yaml'' then Document no_patterns
      else Unreadable)"

definition demo_state :: state where
  "demo_state = \<lparr>
     files = demo_files,
     opened = [],
     clock = 0,
     CHAR_YAML_PATH = ascii ''damian_knight_dusk.yaml'',
     engine = None \<rparr>"

definition loaded_state :: state where
  "loaded_state = demo_state\<lparr>engine := Some demo_engine\<rparr>"

section \<open>Placeholders of a template\<close>

text \<open>
  The argument that a replacement field names (the field name up to the first \<open>.\<close>
  or \<open>[\<close>), its format specification and whether the specification is expanded.
\<close>

fun field_arg :: "field \<Rightarrow> pystr" where
  "field_arg (Field fname conv spec ex) = takeWhile not_dot_bracket fname"

fun field_spec :: "field \<Rightarrow> pystr" where
  "field_spec (Field fname conv spec ex) = spec"

fun needs_expanding :: "field \<Rightarrow> bool" where
  "needs_expanding (Field fname conv spec ex) = ex"

text \<open>The two placeholders in their plain form, \<open>{name}\<close> and \<open>{msg}\<close>.\<close>

definition name_field :: field where
  "name_field = Field (ascii ''name'') 0 [] False"

definition msg_field :: field where
  "msg_field = Field (ascii ''msg'') 0 [] False"

text \<open>A field names an unknown placeholder when its argument is neither of the two.\<close>

definition unknown_arg :: "field \<Rightarrow> bool" where
  "unknown_arg f = (field_arg f \<noteq> ascii ''name'' \<and> field_arg f \<noteq> ascii ''msg'')"

text \<open>
  A template references an unknown placeholder when one of its replacement fields
  does, or when a field does inside the format specification of one of them.
\<close>

definition references_unknown :: "pystr \<Rightarrow> bool" where
  "references_unknown t =
     (\<exists>f \<in> set (markup t). \<exists>g.
        f = Repl g \<and>
        (unknown_arg g \<or>
         (needs_expanding g \<and>
          (\<exists>h \<in> set (markup (field_spec g)). \<exists>k. h = Repl k \<and> unknown_arg k))))"

text \<open>A template is plain when its replacement fields are only \<open>{name}\<close> and \<open>{msg}\<close>.\<close>

definition plain_fields :: "pystr \<Rightarrow> bool" where
  "plain_fields t = (\<forall>f \<in> set (markup t). \<forall>g. f = Repl g \<longrightarrow> g = name_field \<or> g = msg_field)"

text \<open>
  Substitution into the pieces of a template: the literals as they are, the name for
  \<open>{name}\<close>, the message for every other field, up to the first error of the reader.
\<close>

fun pieces :: "pystr \<Rightarrow> pystr \<Rightarrow> token list \<Rightarrow> error + pystr" where
  "pieces n m [] = Inr []"
| "pieces n m (Literal l # ts) =
     (case pieces n m ts of Inl e \<Rightarrow> Inl e | Inr r \<Rightarrow> Inr (l @ r))"
| "pieces n m (Repl f # ts) =
     (case pieces n m ts of
        Inl e \<Rightarrow> Inl e
      | Inr r \<Rightarrow> Inr ((if f = name_field then n else m) @ r))"
| "pieces n m (Bad e # ts) = Inl e"

text \<open>
  A template written as a sequence of chunks: text without braces, the name
  placeholder, the message placeholder.
\<close>

datatype chunk = Text pystr | NamePlaceholder | MsgPlaceholder

fun chunk_text :: "chunk \<Rightarrow> pystr" where
  "chunk_text (Text l) = l"
| "chunk_text NamePlaceholder = ascii ''{name}''"
| "chunk_text MsgPlaceholder = ascii ''{msg}''"

fun chunk_value :: "pystr \<Rightarrow> pystr \<Rightarrow> chunk \<Rightarrow> pystr" where
  "chunk_value n m (Text l) = l"
| "chunk_value n m NamePlaceholder = n"
| "chunk_value n m MsgPlaceholder = m"

fun brace_free :: "chunk \<Rightarrow> bool" where
  "brace_free (Text l) = list_all not_brace l"
| "brace_free c = True"

definition template_of :: "chunk list \<Rightarrow> pystr" where
  "template_of cs = concat (map chunk_text cs)"

definition substitute :: "chunk list \<Rightarrow> pystr \<Rightarrow> pystr \<Rightarrow> pystr" where
  "substitute cs n m = concat (map (chunk_value n m) cs)"

text \<open>
  The selection of the template as the specification words it: the template of the
  mood; if absent, the template of \<open>neutral\<close>; if absent too, the literal
  \<open>{message}\<close>.
\<close>

definition claimed_template :: "SoloEngine \<Rightarrow> pystr \<Rightarrow> error + yval" where
  "claimed_template e md =
     (case dict_get (templates e) md of
        Inl err \<Rightarrow> Inl err
      | Inr (Some t) \<Rightarrow> Inr t
      | Inr None \<Rightarrow>
          (case dict_get (templates e) (ascii ''neutral'') of
             Inl err \<Rightarrow> Inl err
           | Inr (Some t) \<Rightarrow> Inr t
           | Inr None \<Rightarrow> Inr (YStr (ascii ''{message}''))))"

text \<open>Engines for the edge cases of the selection and of the formatting.\<close>

definition empty_angry_engine :: SoloEngine where
  "empty_angry_engine = \<lparr>
     char = YNull,
     name = YStr (ascii ''Damian''),
     templates = YMap
       [(YStr (ascii ''angry''), YStr []),
        (YStr (ascii ''neutral''), YStr (ascii ''{name} says: {msg}''))] \<rparr>"

definition no_template_engine :: SoloEngine where
  "no_template_engine = \<lparr>char = YNull, name = YStr (ascii ''Damian''), templates = YMap []\<rparr>"


definition first_char_engine :: SoloEngine where
  "first_char_engine = \<lparr>
     char = YNull,
     name = YStr (ascii ''Damian''),
     templates = YMap [(YStr (ascii ''neutral''), YStr (ascii ''{msg[0]}''))] \<rparr>"

definition unknown_field_engine :: SoloEngine where
  "unknown_field_engine = \<lparr>
     char = YNull,
     name = YStr (ascii ''Damian''),
     templates = YMap
       [(YStr (ascii ''angry''), YStr (ascii ''{name} to {user}: {msg}'')),
        (YStr (ascii ''neutral''), YStr (ascii ''{name} says: {msg}''))] \<rparr>"



section \<open>Properties of the mood classifier\<close>

lemma str_contains_sublist: "str_contains x low = sublist x low"
  by (induction low) (simp_all add: sublist_Cons_right)

lemma any_in_iff: "any_in ks low = (\<exists>k \<in> set ks. sublist k low)"
  by (induction ks) (simp_all add: str_contains_sublist)

text \<open>
  C1. The classifier lower-cases the message and tests, by substring containment, the
  anger keywords (angry, mad, U+6012, U+751F U+6C23) and then the happiness keywords
  (happy, love, U+958B U+5FC3, U+559C): an anger keyword gives "angry", otherwise a
  happiness keyword gives "happy", otherwise "neutral". A message with a keyword of
  each list is "angry".
\<close>

theorem detect_mood_classifies:
  "anger_keywords = [ascii ''angry'', ascii ''mad'', [24594], [29983, 27683]]
   \<and> happiness_keywords = [ascii ''happy'', ascii ''love'', [38283, 24515], [21916]]
   \<and> detect_mood rt msg =
       (if \<exists>k \<in> set anger_keywords. sublist k (str_lower rt msg) then ascii ''angry''
        else if \<exists>k \<in> set happiness_keywords. sublist k (str_lower rt msg) then ascii ''happy''
        else ascii ''neutral'')
   \<and> ((\<exists>k \<in> set anger_keywords. sublist k (str_lower rt msg))
        \<and> (\<exists>k \<in> set happiness_keywords. sublist k (str_lower rt msg))
        \<longrightarrow> detect_mood rt msg = ascii ''angry'')"
  by (simp add: detect_mood_def Let_def any_in_iff anger_keywords_def happiness_keywords_def)

theorem detect_mood_classifies_witness:
  "(\<exists>k \<in> set anger_keywords. sublist k (str_lower ascii_runtime (ascii ''I LOVE being MAD'')))
   \<and> (\<exists>k \<in> set happiness_keywords. sublist k (str_lower ascii_runtime (ascii ''I LOVE being MAD'')))
   \<and> detect_mood ascii_runtime (ascii ''I LOVE being MAD'') = ascii ''angry''"
proof -
  let ?low = "str_lower ascii_runtime (ascii ''I LOVE being MAD'')"
  have "any_in anger_keywords ?low"
    by (simp add: anger_keywords_def ascii_def ascii_runtime_def ascii_lower_char_def)
  then have a: "\<exists>k \<in> set anger_keywords. sublist k ?low"
    by (simp only: any_in_iff)
  have "any_in happiness_keywords ?low"
    by (simp add: happiness_keywords_def ascii_def ascii_runtime_def ascii_lower_char_def)
  then have b: "\<exists>k \<in> set happiness_keywords. sublist k ?low"
    by (simp only: any_in_iff)
  from a b detect_mood_classifies [of ascii_runtime "ascii ''I LOVE being MAD''"]
  show ?thesis by blast
qed

section \<open>Properties of the loader\<close>

lemma has_field_iff: "has_field key v = (lookup_field key v \<noteq> None)"
  by (cases v) (auto simp: map_of_eq_None_iff image_iff)

lemma getitem_field: "getitem v key = Inr x \<longleftrightarrow> lookup_field key v = Some x"
  by (cases v) (auto split: option.splits)

lemma getitem_Inl: "getitem v key = Inl e \<Longrightarrow> lookup_field key v = None"
  by (cases v) (auto split: option.splits)

lemma contains_key_YMap: "contains_key key (YMap m) = Inr (lookup_field key (YMap m) \<noteq> None)"
  by (simp add: map_of_eq_None_iff image_iff)

lemma init_Inr_iff: "(\<exists>e. init d = Inr e) \<longleftrightarrow> required_keys_present d"
  unfolding init_def required_keys_present_def has_field_iff
  by (auto split: sum.splits option.splits simp: getitem_field dest: getitem_Inl)

lemma init_Inr_fields:
  "init d = Inr e \<Longrightarrow>
     \<exists>bi. lookup_field (ascii ''basic_info'') d = Some bi
        \<and> lookup_field (ascii ''name'') bi = Some (name e)
        \<and> lookup_field (ascii ''speech_patterns'') d = Some (templates e)
        \<and> char e = d"
  unfolding init_def
  by (auto split: sum.splits simp: getitem_field)

lemma required_is_map: "required_keys_present d \<Longrightarrow> \<exists>m. d = YMap m"
  unfolding required_keys_present_def by (cases d) simp_all

lemma check_keys_None:
  assumes "required_keys_present d"
  shows "check_keys [ascii ''basic_info'', ascii ''speech_patterns''] d = None"
proof -
  from assms obtain m where d: "d = YMap m" using required_is_map by blast
  from assms have "lookup_field (ascii ''basic_info'') d \<noteq> None"
    "lookup_field (ascii ''speech_patterns'') d \<noteq> None"
    unfolding required_keys_present_def has_field_iff by (auto split: option.splits)
  then show ?thesis
    unfolding d by (simp add: contains_key_YMap del: contains_key.simps lookup_field.simps)
qed

lemma from_yaml_Inr_iff:
  "(\<exists>e. fst (from_yaml s p) = Inr e) \<longleftrightarrow> (\<exists>d. files s p = Document d \<and> required_keys_present d)"
proof (cases "files s p")
  case (Document d)
  show ?thesis
  proof (cases "required_keys_present d")
    case True
    then show ?thesis using Document init_Inr_iff [of d] check_keys_None [of d]
      by (simp add: from_yaml_def Let_def)
  next
    case False
    then have "\<not> (\<exists>e. init d = Inr e)" by (simp add: init_Inr_iff)
    then show ?thesis using Document False
      by (auto simp: from_yaml_def Let_def split: option.splits)
  qed
qed (simp_all add: from_yaml_def Let_def)

lemma from_yaml_Inr_fields:
  assumes "fst (from_yaml s p) = Inr e"
  shows "\<exists>d bi. files s p = Document d
        \<and> lookup_field (ascii ''basic_info'') d = Some bi
        \<and> lookup_field (ascii ''name'') bi = Some (name e)
        \<and> lookup_field (ascii ''speech_patterns'') d = Some (templates e)
        \<and> char e = d"
  using assms
  by (auto simp: from_yaml_def Let_def split: source.splits option.splits dest: init_Inr_fields)

lemma not_Inr_iff_Inl: "(\<not> (\<exists>e. x = Inr e)) \<longleftrightarrow> (\<exists>err. x = Inl err)"
  by (cases x) auto

text \<open>
  C3. \<open>from_yaml\<close> raises exactly when the source cannot be read, cannot be parsed,
  or lacks a required key (a mapping with \<open>speech_patterns\<close> and with \<open>basic_info\<close>
  holding a mapping with \<open>name\<close>); otherwise it returns the engine built from the
  document. A document without \<open>speech_patterns\<close> raises, and so does one whose
  \<open>basic_info\<close> has no \<open>name\<close>.
\<close>

theorem from_yaml_fails_exactly:
  "((\<exists>err. fst (from_yaml s p) = Inl err) \<longleftrightarrow>
      (files s p = Unreadable \<or> files s p = Malformed \<or>
       (\<exists>d. files s p = Document d \<and> \<not> required_keys_present d)))
   \<and> (\<forall>d. files s p = Document d \<and> required_keys_present d \<longrightarrow>
         (\<exists>e bi. fst (from_yaml s p) = Inr e \<and> char e = d
            \<and> lookup_field (ascii ''basic_info'') d = Some bi
            \<and> lookup_field (ascii ''name'') bi = Some (name e)
            \<and> lookup_field (ascii ''speech_patterns'') d = Some (templates e)))
   \<and> (\<forall>d. files s p = Document d \<and> \<not> has_field (ascii ''speech_patterns'') d \<longrightarrow>
         (\<exists>err. fst (from_yaml s p) = Inl err))
   \<and> (\<forall>d bi. files s p = Document d \<and> lookup_field (ascii ''basic_info'') d = Some bi
         \<and> \<not> has_field (ascii ''name'') bi \<longrightarrow>
         (\<exists>err. fst (from_yaml s p) = Inl err))"
proof -
  have iff: "(\<exists>err. fst (from_yaml s p) = Inl err) \<longleftrightarrow>
      (files s p = Unreadable \<or> files s p = Malformed \<or>
       (\<exists>d. files s p = Document d \<and> \<not> required_keys_present d))"
    unfolding not_Inr_iff_Inl [symmetric] from_yaml_Inr_iff
    by (cases "files s p") auto
  have ok: "\<forall>d. files s p = Document d \<and> required_keys_present d \<longrightarrow>
         (\<exists>e bi. fst (from_yaml s p) = Inr e \<and> char e = d
            \<and> lookup_field (ascii ''basic_info'') d = Some bi
            \<and> lookup_field (ascii ''name'') bi = Some (name e)
            \<and> lookup_field (ascii ''speech_patterns'') d = Some (templates e))"
  proof (intro allI impI)
    fix d assume a: "files s p = Document d \<and> required_keys_present d"
    then obtain e where e: "fst (from_yaml s p) = Inr e"
      using from_yaml_Inr_iff [of s p] by blast
    from from_yaml_Inr_fields [OF e] a e
    show "\<exists>e bi. fst (from_yaml s p) = Inr e \<and> char e = d
            \<and> lookup_field (ascii ''basic_info'') d = Some bi
            \<and> lookup_field (ascii ''name'') bi = Some (name e)
            \<and> lookup_field (ascii ''speech_patterns'') d = Some (templates e)"
      by auto
  qed
  have sp: "\<forall>d. files s p = Document d \<and> \<not> has_field (ascii ''speech_patterns'') d \<longrightarrow>
         (\<exists>err. fst (from_yaml s p) = Inl err)"
    unfolding iff by (auto simp: required_keys_present_def)
  have nm: "\<forall>d bi. files s p = Document d \<and> lookup_field (ascii ''basic_info'') d = Some bi
         \<and> \<not> has_field (ascii ''name'') bi \<longrightarrow> (\<exists>err. fst (from_yaml s p) = Inl err)"
    unfolding iff by (auto simp: required_keys_present_def)
  from iff ok sp nm show ?thesis by blast
qed

theorem from_yaml_fails_exactly_witness:
  "(\<exists>e. fst (from_yaml demo_state (ascii ''damian_knight_dusk.yaml'')) = Inr e
        \<and> name e = YStr (ascii ''Damian''))
   \<and> \<not> has_field (ascii ''speech_patterns'') no_patterns
   \<and> (\<exists>err. fst (from_yaml demo_state (ascii ''no_patterns.yaml'')) = Inl err)
   \<and> (\<exists>err. fst (from_yaml demo_state (ascii ''absent.yaml'')) = Inl err)"
proof -
  have f1: "files demo_state (ascii ''damian_knight_dusk.yaml'') = Document demo_profile"
    by (simp add: demo_state_def demo_files_def)
  have r1: "required_keys_present demo_profile"
    by (simp add: required_keys_present_def demo_profile_def ascii_def)
  have n1: "lookup_field (ascii ''basic_info'') demo_profile
      = Some (YMap [(YStr (ascii ''name''), YStr (ascii ''Damian''))])"
    by (simp add: demo_profile_def ascii_def)
  have f2: "files demo_state (ascii ''no_patterns.yaml'') = Document no_patterns"
    by (simp add: demo_state_def demo_files_def ascii_def)
  have r2: "\<not> has_field (ascii ''speech_patterns'') no_patterns"
    by (simp add: no_patterns_def ascii_def)
  have f3: "files demo_state (ascii ''absent.yaml'') = Unreadable"
    by (simp add: demo_state_def demo_files_def ascii_def)
  from from_yaml_fails_exactly [of demo_state "ascii ''damian_knight_dusk.yaml''"] f1 r1
  obtain e bi where e: "fst (from_yaml demo_state (ascii ''damian_knight_dusk.yaml'')) = Inr e"
    "lookup_field (ascii ''basic_info'') demo_profile = Some bi"
    "lookup_field (ascii ''name'') bi = Some (name e)"
    by blast
  from e(2,3) n1 have "name e = YStr (ascii ''Damian'')"
    by (simp add: ascii_def)
  with e(1) have c1: "\<exists>e. fst (from_yaml demo_state (ascii ''damian_knight_dusk.yaml'')) = Inr e
        \<and> name e = YStr (ascii ''Damian'')" by blast
  from from_yaml_fails_exactly [of demo_state "ascii ''no_patterns.yaml''"] f2 r2
  have c2: "\<exists>err. fst (from_yaml demo_state (ascii ''no_patterns.yaml'')) = Inl err" by blast
  from from_yaml_fails_exactly [of demo_state "ascii ''absent.yaml''"] f3
  have c3: "\<exists>err. fst (from_yaml demo_state (ascii ''absent.yaml'')) = Inl err" by blast
  from c1 r2 c2 c3 show ?thesis by blast
qed

section \<open>Properties of the singleton\<close>

lemma from_yaml_state: "snd (from_yaml s p) = s\<lparr>opened := opened s @ [p]\<rparr>"
  by (simp add: from_yaml_def Let_def split: source.splits option.splits)

lemma from_yaml_result:
  "files s' p = files s p \<Longrightarrow> fst (from_yaml s' p) = fst (from_yaml s p)"
  by (simp add: from_yaml_def Let_def split: source.splits option.splits)

text \<open>
  C8. \<open>from_yaml\<close> changes nothing but the log of opened files, its result depends
  only on what the source holds, and a second call on the same source returns an
  engine with the same name and the same templates.
\<close>

theorem from_yaml_deterministic:
  "snd (from_yaml s p) = s\<lparr>opened := opened s @ [p]\<rparr>
   \<and> (files s' p = files s p \<longrightarrow> fst (from_yaml s' p) = fst (from_yaml s p))
   \<and> (\<forall>e1 e2. fst (from_yaml s p) = Inr e1
         \<and> fst (from_yaml (snd (from_yaml s p)) p) = Inr e2
         \<longrightarrow> name e1 = name e2 \<and> templates e1 = templates e2)"
proof -
  have "fst (from_yaml (snd (from_yaml s p)) p) = fst (from_yaml s p)"
    by (rule from_yaml_result) (simp add: from_yaml_state)
  then show ?thesis
    using from_yaml_state [of s p] from_yaml_result [of s' p s] by auto
qed

lemma init_demo: "init demo_profile = Inr demo_engine"
  by (simp add: init_def demo_profile_def demo_engine_def ascii_def)

lemma demo_required: "required_keys_present demo_profile"
  by (simp add: required_keys_present_def demo_profile_def ascii_def)

lemma from_yaml_demo:
  assumes "files s = demo_files"
  shows "fst (from_yaml s (ascii ''damian_knight_dusk.yaml'')) = Inr demo_engine"
proof -
  have f: "files s (ascii ''damian_knight_dusk.yaml'') = Document demo_profile"
    using assms by (simp add: demo_files_def)
  show ?thesis
    using f check_keys_None [OF demo_required] init_demo
    by (simp add: from_yaml_def Let_def)
qed

theorem from_yaml_deterministic_witness:
  "fst (from_yaml demo_state (ascii ''damian_knight_dusk.yaml'')) = Inr demo_engine
   \<and> fst (from_yaml (snd (from_yaml demo_state (ascii ''damian_knight_dusk.yaml'')))
          (ascii ''damian_knight_dusk.yaml'')) = Inr demo_engine"
proof -
  let ?p = "ascii ''damian_knight_dusk.yaml''"
  have a: "fst (from_yaml demo_state ?p) = Inr demo_engine"
    by (rule from_yaml_demo) (simp add: demo_state_def)
  from from_yaml_deterministic [of demo_state ?p "snd (from_yaml demo_state ?p)"]
  have "snd (from_yaml demo_state ?p) = demo_state\<lparr>opened := opened demo_state @ [?p]\<rparr>"
    and imp: "files (snd (from_yaml demo_state ?p)) ?p = files demo_state ?p
      \<longrightarrow> fst (from_yaml (snd (from_yaml demo_state ?p)) ?p) = fst (from_yaml demo_state ?p)"
    by blast+
  then have b: "fst (from_yaml (snd (from_yaml demo_state ?p)) ?p) = Inr demo_engine"
    using a by simp
  from a b show ?thesis by simp
qed

lemma engine_update_same: "engine s = Some e \<Longrightarrow> s\<lparr>engine := Some e\<rparr> = s"
  by (cases s) simp

lemma load_engine_loaded: "engine s = Some e \<Longrightarrow> load_engine s = (Inr e, s)"
  by (simp add: load_engine_def)

lemma load_engine_Inr: "load_engine s = (Inr e, s1) \<Longrightarrow> engine s1 = Some e"
  by (auto simp: load_engine_def split: option.splits prod.splits sum.splits)

lemma step_loaded:
  "engine s = Some e \<Longrightarrow> engine (step rt s ev) = Some e \<and> opened (step rt s ev) = opened s"
  by (cases ev) (simp_all add: respond_route_def reset_route_def reset_def load_engine_loaded)

lemma run_loaded:
  "engine s = Some e \<Longrightarrow> engine (run rt s evs) = Some e \<and> opened (run rt s evs) = opened s"
  unfolding run_def
proof (induction evs arbitrary: s)
  case Nil
  then show ?case by simp
next
  case (Cons ev evs)
  from step_loaded [OF Cons.prems, of rt ev]
  have "engine (step rt s ev) = Some e" and o: "opened (step rt s ev) = opened s" by simp_all
  from Cons.IH [OF this(1)] o show ?case by simp
qed

text \<open>
  C7. When \<open>_engine\<close> is unset, \<open>_load_engine\<close> calls \<open>from_yaml\<close> on the configured
  path and stores the engine it returns. Once a call has returned an engine, whatever
  happens afterwards (requests, the clock, files being rewritten), \<open>_engine\<close> stays
  that engine, no file is opened again, and \<open>_load_engine\<close> returns that engine and
  leaves the state as it is.
\<close>

theorem load_engine_idempotent:
  "(engine s = None \<longrightarrow>
      load_engine s =
        (case from_yaml s (CHAR_YAML_PATH s) of
           (Inl err, s') \<Rightarrow> (Inl err, s')
         | (Inr e, s') \<Rightarrow> (Inr e, s'\<lparr>engine := Some e\<rparr>)))
   \<and> (\<forall>e s1. load_engine s = (Inr e, s1) \<longrightarrow>
         engine s1 = Some e
         \<and> (\<forall>evs. engine (run rt s1 evs) = Some e
               \<and> opened (run rt s1 evs) = opened s1
               \<and> load_engine (run rt s1 evs) = (Inr e, run rt s1 evs)))"
proof -
  have a: "engine s = None \<longrightarrow>
      load_engine s =
        (case from_yaml s (CHAR_YAML_PATH s) of
           (Inl err, s') \<Rightarrow> (Inl err, s')
         | (Inr e, s') \<Rightarrow> (Inr e, s'\<lparr>engine := Some e\<rparr>))"
    by (simp add: load_engine_def)
  have b: "\<forall>e s1. load_engine s = (Inr e, s1) \<longrightarrow>
         engine s1 = Some e
         \<and> (\<forall>evs. engine (run rt s1 evs) = Some e
               \<and> opened (run rt s1 evs) = opened s1
               \<and> load_engine (run rt s1 evs) = (Inr e, run rt s1 evs))"
  proof (intro allI impI)
    fix e s1 assume "load_engine s = (Inr e, s1)"
    then have e: "engine s1 = Some e" by (rule load_engine_Inr)
    show "engine s1 = Some e
         \<and> (\<forall>evs. engine (run rt s1 evs) = Some e
               \<and> opened (run rt s1 evs) = opened s1
               \<and> load_engine (run rt s1 evs) = (Inr e, run rt s1 evs))"
      using e run_loaded [OF e, of rt] by (simp add: load_engine_loaded)
  qed
  from a b show ?thesis by blast
qed

lemma load_engine_demo:
  "load_engine demo_state
     = (Inr demo_engine,
        demo_state\<lparr>opened := [ascii ''damian_knight_dusk.yaml''], engine := Some demo_engine\<rparr>)"
proof -
  let ?p = "ascii ''damian_knight_dusk.yaml''"
  have r: "fst (from_yaml demo_state ?p) = Inr demo_engine"
    by (rule from_yaml_demo) (simp add: demo_state_def)
  have s': "snd (from_yaml demo_state ?p) = demo_state\<lparr>opened := [?p]\<rparr>"
    using from_yaml_state [of demo_state ?p] by (simp add: demo_state_def)
  have "from_yaml demo_state ?p = (Inr demo_engine, demo_state\<lparr>opened := [?p]\<rparr>)"
    using r s' by (simp add: prod_eq_iff)
  moreover have "engine demo_state = None" "CHAR_YAML_PATH demo_state = ?p"
    by (simp_all add: demo_state_def)
  ultimately show ?thesis by (simp add: load_engine_def)
qed

theorem load_engine_idempotent_witness:
  "engine demo_state = None
   \<and> load_engine demo_state
     = (Inr demo_engine,
        demo_state\<lparr>opened := [ascii ''damian_knight_dusk.yaml''], engine := Some demo_engine\<rparr>)
   \<and> opened (run ascii_runtime
        (demo_state\<lparr>opened := [ascii ''damian_knight_dusk.yaml''], engine := Some demo_engine\<rparr>)
        [Respond (ascii ''hello there''), Write (ascii ''damian_knight_dusk.yaml'') Malformed,
         Tick 5, Reset, Respond (ascii ''I am so mad'')])
      = [ascii ''damian_knight_dusk.yaml'']
   \<and> engine (run ascii_runtime
        (demo_state\<lparr>opened := [ascii ''damian_knight_dusk.yaml''], engine := Some demo_engine\<rparr>)
        [Respond (ascii ''hello there''), Write (ascii ''damian_knight_dusk.yaml'') Malformed,
         Tick 5, Reset, Respond (ascii ''I am so mad'')])
      = Some demo_engine"
proof -
  have n: "engine demo_state = None" by (simp add: demo_state_def)
  from load_engine_idempotent [of demo_state ascii_runtime] load_engine_demo n
  show ?thesis by simp
qed

section \<open>Properties of reset\<close>

text \<open>
  C6. \<open>reset\<close> returns without an exception and leaves the engine as it is, so
  \<open>respond\<close> gives the same result after it; on the loaded process the route
  \<open>/reset\<close> leaves the whole state as it is, and \<open>/respond\<close> after it answers as
  it would have without it.
\<close>

theorem reset_no_effect:
  "reset e = (Inr (), e)
   \<and> respond rt (snd (reset e)) now m = respond rt e now m
   \<and> (engine s = Some e \<longrightarrow>
        reset_route s = (Inr (), s)
        \<and> respond_route rt (snd (reset_route s)) m = respond_route rt s m)"
  by (simp add: reset_def reset_route_def load_engine_loaded engine_update_same)

theorem reset_no_effect_witness:
  "engine loaded_state = Some demo_engine
   \<and> reset_route loaded_state = (Inr (), loaded_state)
   \<and> respond_route ascii_runtime (snd (reset_route loaded_state)) (ascii ''hello there'')
      = respond_route ascii_runtime loaded_state (ascii ''hello there'')"
proof -
  have "engine loaded_state = Some demo_engine" by (simp add: loaded_state_def)
  with reset_no_effect [of demo_engine ascii_runtime 0 "ascii ''hello there''" loaded_state]
  show ?thesis by simp
qed

section \<open>Properties of the formatter\<close>

lemma build_string_0: "build_string rt nm msg 0 = (\<lambda>s. Inl ValueError)"
  by (rule ext) simp

lemma format_top:
  "format rt t nm msg =
     do_markup (output_markup rt (build_string rt nm msg (Suc 0)) nm msg) [] (markup t)"
  by (simp add: format_def numeral_2_eq_2)



lemma do_markup_fail:
  "Repl f \<in> set ts \<Longrightarrow> r f = Inl e \<Longrightarrow> \<exists>e'. do_markup r out ts = Inl e'"
proof (induction ts arbitrary: out)
  case Nil
  then show ?case by simp
next
  case (Cons t ts)
  show ?case
  proof (cases t)
    case (Literal l)
    with Cons show ?thesis by simp
  next
    case (Repl g)
    with Cons show ?thesis by (cases "r g") auto
  next
    case (Bad e)
    then show ?thesis by simp
  qed
qed

lemma get_integer_name: "get_integer rt (ascii ''name'') = Inr None"
  by (simp add: get_integer_def ascii_def decimal_digit_def)

lemma get_integer_msg: "get_integer rt (ascii ''msg'') = Inr None"
  by (simp add: get_integer_def ascii_def decimal_digit_def)

lemma lookup_arg_msg: "lookup_arg rt nm m (ascii ''msg'') = Inr (Val (YStr m))"
proof -
  have "ascii ''msg'' \<noteq> []" "ascii ''msg'' \<noteq> ascii ''name''"
    by (simp_all add: ascii_def)
  then show ?thesis by (simp add: lookup_arg_def get_integer_msg)
qed

lemma lookup_arg_name: "lookup_arg rt nm m (ascii ''name'') = Inr (Val nm)"
proof -
  have "ascii ''name'' \<noteq> []" by (simp add: ascii_def)
  then show ?thesis by (simp add: lookup_arg_def get_integer_name)
qed

lemma split_msg:
  "takeWhile not_dot_bracket (ascii ''msg'') = ascii ''msg''"
  "dropWhile not_dot_bracket (ascii ''msg'') = []"
  by (simp_all add: ascii_def not_dot_bracket_def)

lemma split_name:
  "takeWhile not_dot_bracket (ascii ''name'') = ascii ''name''"
  "dropWhile not_dot_bracket (ascii ''name'') = []"
  by (simp_all add: ascii_def not_dot_bracket_def)

lemma output_markup_msg: "output_markup rt expand nm m msg_field = Inr m"
  by (simp add: output_markup_def msg_field_def split_msg lookup_arg_msg render_field_def)

lemma output_markup_name: "output_markup rt expand (YStr n) m name_field = Inr n"
  by (simp add: output_markup_def name_field_def split_name lookup_arg_name render_field_def)

lemma lookup_arg_unknown:
  "a \<noteq> ascii ''name'' \<Longrightarrow> a \<noteq> ascii ''msg'' \<Longrightarrow> \<exists>e. lookup_arg rt nm m a = Inl e"
  by (simp add: lookup_arg_def split: sum.splits option.splits)

lemma output_markup_unknown:
  "unknown_arg f \<Longrightarrow> \<exists>e. output_markup rt expand nm m f = Inl e"
proof -
  assume u: "unknown_arg f"
  obtain fname conv spec ex where f: "f = Field fname conv spec ex" by (cases f)
  from u f lookup_arg_unknown [of "takeWhile not_dot_bracket fname" rt nm m]
  obtain e where "lookup_arg rt nm m (takeWhile not_dot_bracket fname) = Inl e"
    by (auto simp: unknown_arg_def)
  then show ?thesis by (simp add: output_markup_def f)
qed

lemma output_markup_expand_fail:
  "needs_expanding f \<Longrightarrow> expand (field_spec f) = Inl e \<Longrightarrow>
     \<exists>e'. output_markup rt expand nm m f = Inl e'"
  by (cases f) (auto simp: output_markup_def split: sum.splits)

lemma format_unknown:
  assumes "references_unknown t"
  shows "\<exists>e. format rt t nm m = Inl e"
proof -
  let ?r1 = "output_markup rt (build_string rt nm m 0) nm m"
  let ?r2 = "output_markup rt (build_string rt nm m (Suc 0)) nm m"
  from assms obtain g where g: "Repl g \<in> set (markup t)"
    and d: "unknown_arg g \<or> (needs_expanding g \<and>
          (\<exists>h \<in> set (markup (field_spec g)). \<exists>k. h = Repl k \<and> unknown_arg k))"
    unfolding references_unknown_def by blast
  have "\<exists>e. ?r2 g = Inl e"
  proof (cases "unknown_arg g")
    case True
    then show ?thesis by (rule output_markup_unknown)
  next
    case False
    with d obtain k where ex: "needs_expanding g"
      and k: "Repl k \<in> set (markup (field_spec g))" "unknown_arg k" by blast
    from output_markup_unknown [OF k(2)] obtain e where "?r1 k = Inl e" by blast
    from do_markup_fail [of k "markup (field_spec g)" ?r1 e "[]"] k(1) this
    obtain e' where "build_string rt nm m (Suc 0) (field_spec g) = Inl e'" by auto
    with ex output_markup_expand_fail [of g "build_string rt nm m (Suc 0)" e' rt nm m]
    show ?thesis by blast
  qed
  then obtain e where "?r2 g = Inl e" by blast
  from do_markup_fail [of g "markup t" ?r2 e "[]"] g this
  show ?thesis by (simp add: format_top)
qed

section \<open>Properties of respond\<close>

lemma respond_template:
  "select_template e (detect_mood rt m) = Inr (YStr t) \<Longrightarrow>
   respond rt e now m =
     (case format rt t (name e) m of
        Inl err \<Rightarrow> Inl err
      | Inr x \<Rightarrow> Inr \<lparr>reply = x, mood = detect_mood rt m, timestamp = now\<rparr>)"
  by (simp add: respond_def Let_def)

lemma respond_route_loaded:
  "engine s = Some e \<Longrightarrow> respond_route rt s m = (respond rt e (clock s) m, s)"
  by (simp add: respond_route_def load_engine_loaded)

text \<open>
  C4. When the selected template references a placeholder other than \<open>name\<close> and
  \<open>msg\<close>, \<open>respond\<close> raises; the route passes the exception on and leaves the state of
  the process, with its engine, as it was, so that the next request is answered as if
  the failing one had not been made.
\<close>

theorem respond_unknown_placeholder:
  assumes "engine s = Some e"
    and "select_template e (detect_mood rt m) = Inr (YStr t)"
    and "references_unknown t"
  shows "(\<exists>err. respond rt e now m = Inl err)
       \<and> (\<exists>err. respond_route rt s m = (Inl err, s))
       \<and> respond_route rt (snd (respond_route rt s m)) m' = respond_route rt s m'"
proof -
  from format_unknown [OF assms(3), of rt "name e" m]
  obtain err where f: "format rt t (name e) m = Inl err" by blast
  have r: "respond rt e k m = Inl err" for k
    using f by (simp add: respond_template [OF assms(2)])
  from r [of now] r [of "clock s"] show ?thesis
    by (simp add: respond_route_loaded [OF assms(1)])
qed

lemmas ev_mood = detect_mood_def Let_def anger_keywords_def happiness_keywords_def
  ascii_def ascii_runtime_def ascii_lower_char_def

lemma mood_mad: "detect_mood ascii_runtime (ascii ''I am so mad'') = ascii ''angry''"
  by (simp add: ev_mood)


lemma markup_unknown_template:
  "markup (ascii ''{name} to {user}: {msg}'') =
     [Literal [], Repl name_field, Literal (ascii '' to ''),
      Repl (Field (ascii ''user'') 0 [] False), Literal (ascii '': ''), Repl msg_field]"
  by (simp add: ascii_def not_brace_def parse_field_def name_field_def msg_field_def)

theorem respond_unknown_placeholder_witness:
  "(\<exists>err. respond ascii_runtime unknown_field_engine 0 (ascii ''I am so mad'') = Inl err)
   \<and> (\<exists>err. respond_route ascii_runtime (demo_state\<lparr>engine := Some unknown_field_engine\<rparr>)
         (ascii ''I am so mad'')
       = (Inl err, demo_state\<lparr>engine := Some unknown_field_engine\<rparr>))
   \<and> respond_route ascii_runtime
        (snd (respond_route ascii_runtime (demo_state\<lparr>engine := Some unknown_field_engine\<rparr>)
           (ascii ''I am so mad'')))
        (ascii ''hello there'')
      = respond_route ascii_runtime (demo_state\<lparr>engine := Some unknown_field_engine\<rparr>)
          (ascii ''hello there'')"
proof -
  let ?s = "demo_state\<lparr>engine := Some unknown_field_engine\<rparr>"
  have a: "engine ?s = Some unknown_field_engine" by simp
  have b: "select_template unknown_field_engine (detect_mood ascii_runtime (ascii ''I am so mad''))
      = Inr (YStr (ascii ''{name} to {user}: {msg}''))"
    unfolding mood_mad by (simp add: select_template_def unknown_field_engine_def ascii_def)
  have "unknown_arg (Field (ascii ''user'') 0 [] False)"
    by (simp add: unknown_arg_def ascii_def not_dot_bracket_def)
  then have c: "references_unknown (ascii ''{name} to {user}: {msg}'')"
    unfolding references_unknown_def markup_unknown_template by simp
  from respond_unknown_placeholder [OF a b c, of 0 "ascii ''hello there''"]
  show ?thesis .
qed

lemma markup_says:
  "markup (ascii ''{name} says: {msg}'') =
     [Literal [], Repl name_field, Literal (ascii '' says: ''), Repl msg_field]"
  by (simp add: ascii_def not_brace_def parse_field_def name_field_def msg_field_def)










section \<open>Substitution\<close>

lemma name_msg_distinct: "name_field \<noteq> msg_field"
  by (simp add: name_field_def msg_field_def ascii_def)

lemma do_markup_pieces:
  "(\<forall>f. Repl f \<in> set ts \<longrightarrow> f = name_field \<or> f = msg_field) \<Longrightarrow>
   do_markup (output_markup rt ex (YStr n) m) out ts
     = (case pieces n m ts of Inl e \<Rightarrow> Inl e | Inr r \<Rightarrow> Inr (out @ r))"
proof (induction ts arbitrary: out)
  case Nil
  then show ?case by simp
next
  case (Cons t ts)
  then have IH: "do_markup (output_markup rt ex (YStr n) m) out' ts
     = (case pieces n m ts of Inl e \<Rightarrow> Inl e | Inr r \<Rightarrow> Inr (out' @ r))" for out'
    by simp
  show ?case
  proof (cases t)
    case (Literal l)
    then show ?thesis by (cases "pieces n m ts") (simp_all add: IH)
  next
    case (Repl f)
    with Cons.prems have "f = name_field \<or> f = msg_field" by simp
    then show ?thesis
    proof
      assume "f = name_field"
      with Repl show ?thesis
        by (cases "pieces n m ts") (simp_all add: IH output_markup_name)
    next
      assume "f = msg_field"
      with Repl name_msg_distinct show ?thesis
        by (cases "pieces n m ts") (simp_all add: IH output_markup_msg)
    qed
  next
    case (Bad e)
    then show ?thesis by simp
  qed
qed

lemma format_plain:
  "plain_fields t \<Longrightarrow> format rt t (YStr n) m = pieces n m (markup t)"
  unfolding format_top plain_fields_def
  by (subst do_markup_pieces) (auto split: sum.splits)

lemma pieces_error: "pieces n m ts = Inl e \<Longrightarrow> pieces n' m' ts = Inl e"
proof (induction ts)
  case Nil
  then show ?case by simp
next
  case (Cons t ts)
  then show ?case
    by (cases t; cases "pieces n m ts"; cases "pieces n' m' ts") auto
qed


lemma markup_unfold:
  assumes "s \<noteq> []"
  shows "markup s =
     (case dropWhile not_brace s of
        [] \<Rightarrow> [Literal (takeWhile not_brace s)]
      | c # rest \<Rightarrow>
          (case rest of
             [] \<Rightarrow> [Bad ValueError]
           | c2 # rest2 \<Rightarrow>
               if c = c2 then Literal (takeWhile not_brace s @ [c]) # markup rest2
               else if c = rbrace then [Bad ValueError]
               else (case parse_field rest of
                       Inl e \<Rightarrow> [Bad e]
                     | Inr (f, r) \<Rightarrow> Literal (takeWhile not_brace s) # Repl f # markup r)))"
proof (cases s)
  case Nil
  with assms show ?thesis by simp
next
  case (Cons x xs)
  then show ?thesis by (simp only: markup.simps Let_def)
qed

lemma do_markup_text:
  assumes "list_all not_brace l"
  shows "do_markup r out (markup (l @ s)) = do_markup r (out @ l) (markup s)"
proof (cases "l = []")
  case True
  then show ?thesis by simp
next
  case False
  from assms have nb: "\<forall>x \<in> set l. not_brace x" by (simp add: list_all_iff)
  have tw: "takeWhile not_brace (l @ s) = l @ takeWhile not_brace s"
    using nb by (simp add: takeWhile_append2)
  have dw: "dropWhile not_brace (l @ s) = dropWhile not_brace s"
    using nb by (simp add: dropWhile_append2)
  show ?thesis
  proof (cases "s = []")
    case True
    have dl: "dropWhile not_brace l = []" and tl: "takeWhile not_brace l = l"
      using nb by simp_all
    show ?thesis
      unfolding True append_Nil2 markup_unfold [OF False] dl tl by simp
  next
    case s: False
    have 1: "l @ s \<noteq> []" using False by simp
    show ?thesis
    proof (cases "dropWhile not_brace s")
      case Nil
      show ?thesis
        unfolding markup_unfold [OF 1] markup_unfold [OF s] tw dw Nil by simp
    next
      case (Cons c rest)
      show ?thesis
      proof (cases rest)
        case Nil
        show ?thesis
          unfolding markup_unfold [OF 1] markup_unfold [OF s] tw dw Cons Nil by simp
      next
        case rest: (Cons c2 rest2)
        show ?thesis
        proof (cases "parse_field (c2 # rest2)")
          case (Inl e)
          show ?thesis
            unfolding markup_unfold [OF 1] markup_unfold [OF s] tw dw Cons rest
            by (simp add: Inl)
        next
          case (Inr p)
          obtain f r' where p: "p = (f, r')" by (cases p)
          show ?thesis
            unfolding markup_unfold [OF 1] markup_unfold [OF s] tw dw Cons rest
            by (simp add: Inr p)
        qed
      qed
    qed
  qed
qed

lemma markup_name_placeholder:
  "markup (ascii ''{name}'' @ s) = Literal [] # Repl name_field # markup s"
  by (simp add: ascii_def not_brace_def parse_field_def name_field_def)

lemma markup_msg_placeholder:
  "markup (ascii ''{msg}'' @ s) = Literal [] # Repl msg_field # markup s"
  by (simp add: ascii_def not_brace_def parse_field_def msg_field_def)

lemma do_markup_chunks:
  "list_all brace_free cs \<Longrightarrow>
   do_markup (output_markup rt ex (YStr n) m) out (markup (template_of cs))
     = Inr (out @ substitute cs n m)"
proof (induction cs arbitrary: out)
  case Nil
  then show ?case by (simp add: template_of_def substitute_def)
next
  case (Cons c cs)
  then have IH: "do_markup (output_markup rt ex (YStr n) m) out' (markup (template_of cs))
     = Inr (out' @ substitute cs n m)" for out'
    by simp
  have t: "template_of (c # cs) = chunk_text c @ template_of cs"
    by (simp add: template_of_def)
  have v: "substitute (c # cs) n m = chunk_value n m c @ substitute cs n m"
    by (simp add: substitute_def)
  show ?case
  proof (cases c)
    case (Text l)
    with Cons.prems have "list_all not_brace l" by simp
    from do_markup_text [OF this] show ?thesis
      unfolding t v by (simp add: Text IH)
  next
    case NamePlaceholder
    then show ?thesis
      unfolding t v by (simp add: markup_name_placeholder output_markup_name IH)
  next
    case MsgPlaceholder
    then show ?thesis
      unfolding t v by (simp add: markup_msg_placeholder output_markup_msg IH)
  qed
qed

lemma format_chunks:
  "list_all brace_free cs \<Longrightarrow> format rt (template_of cs) (YStr n) m = Inr (substitute cs n m)"
  by (simp add: format_top do_markup_chunks)


lemma select_template_map:
  assumes "templates e = YMap tm"
  shows "select_template e md =
     Inr (case map_of tm (YStr md) of
            None \<Rightarrow>
              (case map_of tm (YStr (ascii ''neutral'')) of
                 None \<Rightarrow> YStr (ascii ''{msg}'') | Some t \<Rightarrow> t)
          | Some v \<Rightarrow>
              if truthy v then v
              else (case map_of tm (YStr (ascii ''neutral'')) of
                      None \<Rightarrow> YStr (ascii ''{msg}'') | Some t \<Rightarrow> t))"
  using assms by (simp add: select_template_def split: option.splits)

text \<open>
  C2, amended. For a profile whose templates are a mapping and whose name is a
  string: the template is the one of the detected mood when it is present and true
  (for a string: not empty); otherwise the one of \<open>neutral\<close> when present; otherwise
  the literal \<open>{msg}\<close>. When the template is made of text without braces and of the
  placeholders \<open>{name}\<close> and \<open>{msg}\<close>, the reply is the template with the name and
  the message, as it is, in their place.
\<close>

theorem respond_selects_and_substitutes:
  assumes "templates e = YMap tm" and "name e = YStr n"
  shows "(\<forall>v. map_of tm (YStr md) = Some v \<and> truthy v \<longrightarrow> select_template e md = Inr v)
       \<and> (map_of tm (YStr md) = None \<or> (\<exists>v. map_of tm (YStr md) = Some v \<and> \<not> truthy v) \<longrightarrow>
            select_template e md =
              Inr (case map_of tm (YStr (ascii ''neutral'')) of
                     None \<Rightarrow> YStr (ascii ''{msg}'') | Some t \<Rightarrow> t))
       \<and> (select_template e (detect_mood rt m) = Inr (YStr (template_of cs))
            \<and> list_all brace_free cs \<longrightarrow>
            respond rt e now m =
              Inr \<lparr>reply = substitute cs n m, mood = detect_mood rt m, timestamp = now\<rparr>)"
proof -
  have a: "\<forall>v. map_of tm (YStr md) = Some v \<and> truthy v \<longrightarrow> select_template e md = Inr v"
    by (simp add: select_template_map [OF assms(1)])
  have b: "map_of tm (YStr md) = None \<or> (\<exists>v. map_of tm (YStr md) = Some v \<and> \<not> truthy v) \<longrightarrow>
            select_template e md =
              Inr (case map_of tm (YStr (ascii ''neutral'')) of
                     None \<Rightarrow> YStr (ascii ''{msg}'') | Some t \<Rightarrow> t)"
    by (auto simp: select_template_map [OF assms(1)])
  have c: "select_template e (detect_mood rt m) = Inr (YStr (template_of cs))
            \<and> list_all brace_free cs \<longrightarrow>
            respond rt e now m =
              Inr \<lparr>reply = substitute cs n m, mood = detect_mood rt m, timestamp = now\<rparr>"
  proof
    assume h: "select_template e (detect_mood rt m) = Inr (YStr (template_of cs))
            \<and> list_all brace_free cs"
    then have "format rt (template_of cs) (name e) m = Inr (substitute cs n m)"
      by (simp add: assms(2) format_chunks)
    with h show "respond rt e now m =
              Inr \<lparr>reply = substitute cs n m, mood = detect_mood rt m, timestamp = now\<rparr>"
      by (simp add: respond_template)
  qed
  from a b c show ?thesis by blast
qed

theorem respond_selects_and_substitutes_witness:
  "respond ascii_runtime demo_engine 0 (ascii ''I am so mad'')
     = Inr \<lparr>reply = ascii ''Damian snaps: I am so mad'', mood = ascii ''angry'', timestamp = 0\<rparr>"
proof -
  let ?tm = "[(YStr (ascii ''neutral''), YStr (ascii ''{name} says: {msg}'')),
              (YStr (ascii ''angry''), YStr (ascii ''{name} snaps: {msg}''))]"
  let ?cs = "[NamePlaceholder, Text (ascii '' snaps: ''), MsgPlaceholder]"
  have t: "templates demo_engine = YMap ?tm" and n: "name demo_engine = YStr (ascii ''Damian'')"
    by (simp_all add: demo_engine_def)
  have l: "map_of ?tm (YStr (ascii ''angry'')) = Some (YStr (ascii ''{name} snaps: {msg}''))"
    by (simp add: ascii_def)
  have tr: "truthy (YStr (ascii ''{name} snaps: {msg}''))" by (simp add: ascii_def)
  have tc: "template_of ?cs = ascii ''{name} snaps: {msg}''"
    by (simp add: template_of_def ascii_def)
  have bf: "list_all brace_free ?cs" by (simp add: ascii_def not_brace_def)
  have sb: "substitute ?cs (ascii ''Damian'') (ascii ''I am so mad'') = ascii ''Damian snaps: I am so mad''"
    by (simp add: substitute_def ascii_def)
  note th = respond_selects_and_substitutes [OF t n, of "ascii ''angry''" ascii_runtime
      "ascii ''I am so mad''" ?cs 0]
  from th l tr have "select_template demo_engine (ascii ''angry'')
      = Inr (YStr (ascii ''{name} snaps: {msg}''))" by blast
  then have "select_template demo_engine (detect_mood ascii_runtime (ascii ''I am so mad''))
      = Inr (YStr (template_of ?cs))"
    unfolding mood_mad tc .
  with th bf show ?thesis unfolding sb mood_mad by blast
qed

lemma format_message_literal:
  "format ascii_runtime (ascii ''{message}'') (YStr (ascii ''Damian'')) (ascii ''hi'') = Inl KeyError"
  unfolding format_top
  by (simp add: ascii_def not_brace_def parse_field_def output_markup_def not_dot_bracket_def
        lookup_arg_def get_integer_def decimal_digit_def)

lemma mood_hi: "detect_mood ascii_runtime (ascii ''hi'') = ascii ''neutral''"
  by (simp add: ev_mood)

text \<open>
  C2, as stated, fails: the selection as the specification words it differs from
  the code on an empty template of the mood, which the code passes over, and on the
  default, which in the code is \<open>{msg}\<close>: \<open>{message}\<close> would raise.
\<close>

theorem claimed_template_counterexample:
  "claimed_template empty_angry_engine (ascii ''angry'') = Inr (YStr [])
   \<and> select_template empty_angry_engine (ascii ''angry'')
       = Inr (YStr (ascii ''{name} says: {msg}''))
   \<and> respond ascii_runtime empty_angry_engine 0 (ascii ''I am so mad'')
       = Inr \<lparr>reply = ascii ''Damian says: I am so mad'', mood = ascii ''angry'', timestamp = 0\<rparr>
   \<and> claimed_template no_template_engine (ascii ''neutral'') = Inr (YStr (ascii ''{message}''))
   \<and> format ascii_runtime (ascii ''{message}'') (YStr (ascii ''Damian'')) (ascii ''hi'')
       = Inl KeyError
   \<and> select_template no_template_engine (ascii ''neutral'') = Inr (YStr (ascii ''{msg}''))
   \<and> respond ascii_runtime no_template_engine 0 (ascii ''hi'')
       = Inr \<lparr>reply = ascii ''hi'', mood = ascii ''neutral'', timestamp = 0\<rparr>"
proof -
  have a: "claimed_template empty_angry_engine (ascii ''angry'') = Inr (YStr [])"
    by (simp add: claimed_template_def empty_angry_engine_def ascii_def)
  have b: "select_template empty_angry_engine (ascii ''angry'')
       = Inr (YStr (ascii ''{name} says: {msg}''))"
    by (simp add: select_template_def empty_angry_engine_def ascii_def)
  have f1: "format ascii_runtime (ascii ''{name} says: {msg}'') (YStr (ascii ''Damian''))
      (ascii ''I am so mad'') = Inr (ascii ''Damian says: I am so mad'')"
    unfolding format_top markup_says
    by (simp add: output_markup_msg output_markup_name) (simp add: ascii_def)
  have c: "respond ascii_runtime empty_angry_engine 0 (ascii ''I am so mad'')
       = Inr \<lparr>reply = ascii ''Damian says: I am so mad'', mood = ascii ''angry'', timestamp = 0\<rparr>"
    using b f1 unfolding respond_def Let_def mood_mad
    by (simp add: empty_angry_engine_def)
  have d: "claimed_template no_template_engine (ascii ''neutral'') = Inr (YStr (ascii ''{message}''))"
    by (simp add: claimed_template_def no_template_engine_def)
  have e: "select_template no_template_engine (ascii ''neutral'') = Inr (YStr (ascii ''{msg}''))"
    by (simp add: select_template_def no_template_engine_def)
  have m: "markup (ascii ''{msg}'') = [Literal [], Repl msg_field]"
    using markup_msg_placeholder [of "[]"] by simp
  have f2: "format ascii_runtime (ascii ''{msg}'') (YStr (ascii ''Damian'')) (ascii ''hi'')
      = Inr (ascii ''hi'')"
    unfolding format_top m by (simp add: output_markup_msg)
  have g: "respond ascii_runtime no_template_engine 0 (ascii ''hi'')
       = Inr \<lparr>reply = ascii ''hi'', mood = ascii ''neutral'', timestamp = 0\<rparr>"
    using e f2 unfolding respond_def Let_def mood_hi
    by (simp add: no_template_engine_def)
  from a b c d format_message_literal e g show ?thesis by blast
qed

text \<open>
  C10, amended. When the replacement fields of the selected template are only the
  plain \<open>{name}\<close> and \<open>{msg}\<close> and the name is a string, formatting is one pass over
  the template: the reply is its literal text with the name and the message, as it
  is, in place of the fields, or the error of the reader; the message is not read as
  a template, and whether formatting fails does not depend on the message.
\<close>

theorem plain_template_single_pass:
  assumes "select_template e (detect_mood rt m) = Inr (YStr t)"
    and "plain_fields t" and "name e = YStr n"
  shows "respond rt e now m =
           (case pieces n m (markup t) of
              Inl err \<Rightarrow> Inl err
            | Inr x \<Rightarrow> Inr \<lparr>reply = x, mood = detect_mood rt m, timestamp = now\<rparr>)
       \<and> (\<forall>err. format rt t (YStr n) m = Inl err \<longrightarrow>
             (\<forall>m'. format rt t (YStr n) m' = Inl err))"
proof -
  have "respond rt e now m =
           (case pieces n m (markup t) of
              Inl err \<Rightarrow> Inl err
            | Inr x \<Rightarrow> Inr \<lparr>reply = x, mood = detect_mood rt m, timestamp = now\<rparr>)"
    by (simp add: respond_template [OF assms(1)] assms(3) format_plain [OF assms(2)])
  moreover have "\<forall>err. format rt t (YStr n) m = Inl err \<longrightarrow>
             (\<forall>m'. format rt t (YStr n) m' = Inl err)"
    by (auto simp: format_plain [OF assms(2)] dest: pieces_error)
  ultimately show ?thesis by blast
qed

lemma mood_braces: "detect_mood ascii_runtime (ascii ''{name}'') = ascii ''neutral''"
  by (simp add: ev_mood)

theorem plain_template_single_pass_witness:
  "respond ascii_runtime demo_engine 0 (ascii ''{name}'')
     = Inr \<lparr>reply = ascii ''Damian says: {name}'', mood = ascii ''neutral'', timestamp = 0\<rparr>"
proof -
  have s: "select_template demo_engine (detect_mood ascii_runtime (ascii ''{name}''))
      = Inr (YStr (ascii ''{name} says: {msg}''))"
    unfolding mood_braces by (simp add: select_template_def demo_engine_def ascii_def)
  have p: "plain_fields (ascii ''{name} says: {msg}'')"
    unfolding plain_fields_def markup_says by simp
  have n: "name demo_engine = YStr (ascii ''Damian'')" by (simp add: demo_engine_def)
  have ps: "pieces (ascii ''Damian'') (ascii ''{name}'') (markup (ascii ''{name} says: {msg}''))
      = Inr (ascii ''Damian says: {name}'')"
    unfolding markup_says using name_msg_distinct by (simp add: ascii_def)
  from plain_template_single_pass [OF s p n, of 0] show ?thesis
    unfolding ps mood_braces by simp
qed

lemma mood_empty: "detect_mood ascii_runtime [] = ascii ''neutral''"
  by (simp add: ev_mood)

lemma markup_first_char:
  "markup (ascii ''{msg[0]}'') = [Literal [], Repl (Field (ascii ''msg[0]'') 0 [] False)]"
  by (simp add: ascii_def not_brace_def parse_field_def)

lemma format_first_char:
  "format ascii_runtime (ascii ''{msg[0]}'') nm m
     = (if m = [] then Inl IndexError else Inr [m ! 0])"
  unfolding format_top markup_first_char
  by (simp add: output_markup_def ascii_def not_dot_bracket_def lookup_arg_def get_integer_def
        decimal_digit_def getitem_obj_def render_field_def ascii_runtime_def)

text \<open>
  C10, as stated, fails: with the template \<open>{msg[0]}\<close> the empty message makes
  formatting fail, and the message \<open>hi\<close> gives the reply \<open>h\<close>, which does not
  contain it.
\<close>

theorem message_content_counterexample:
  "respond ascii_runtime first_char_engine 0 [] = Inl IndexError
   \<and> respond ascii_runtime first_char_engine 0 (ascii ''hi'')
       = Inr \<lparr>reply = ascii ''h'', mood = ascii ''neutral'', timestamp = 0\<rparr>
   \<and> \<not> sublist (ascii ''hi'') (ascii ''h'')"
proof -
  have s: "select_template first_char_engine (ascii ''neutral'') = Inr (YStr (ascii ''{msg[0]}''))"
    by (simp add: select_template_def first_char_engine_def ascii_def)
  have a: "respond ascii_runtime first_char_engine 0 [] = Inl IndexError"
    using s unfolding respond_def Let_def mood_empty by (simp add: format_first_char)
  have b: "respond ascii_runtime first_char_engine 0 (ascii ''hi'')
       = Inr \<lparr>reply = ascii ''h'', mood = ascii ''neutral'', timestamp = 0\<rparr>"
    using s unfolding respond_def Let_def mood_hi
    by (simp add: format_first_char) (simp add: ascii_def)
  have c: "\<not> sublist (ascii ''hi'') (ascii ''h'')"
    unfolding str_contains_sublist [symmetric] by (simp add: ascii_def)
  from a b c show ?thesis by blast
qed


end
